theory Spec2Isabelle
  imports Main
begin

section \<open>A retrieval pipeline: query expansion, step-back questions, search, refine\<close>

text \<open>
  The program is the notebook \<^verbatim>\<open>nvidia-rag.ipynb\<close>. Its cells run in order:
  \<^item> \<^verbatim>\<open>multiquery_chain\<close> asks the chat model for rewordings of a question and parses
    the answer into lines (\<^verbatim>\<open>LineListOutputParser.parse\<close>);
  \<^item> \<^verbatim>\<open>question_gen.batch\<close> asks the chat model for one step-back question per line;
  \<^item> a \<^verbatim>\<open>for\<close> loop searches the web for every line and every step-back answer,
    sleeping five seconds after each search;
  \<^item> a refine chain summarises the search results.
  The chat model and the search tool are remote services: they are parameters of the
  model, functions that either fail or answer with a text.
\<close>

subsection \<open>Python strings\<close>

text \<open>
  A Python \<^verbatim>\<open>str\<close> is a sequence of Unicode code points; a code point is a natural
  number here. \<open>str_of\<close> reads an ASCII literal as such a sequence.
\<close>

type_synonym str = "nat list"

definition str_of :: "string \<Rightarrow> str" where
  "str_of s = map of_char s"

text \<open>
  \<^verbatim>\<open>str.isspace\<close> on one character: the code points CPython lists as whitespace
  (U+0009..U+000D, U+001C..U+0020, U+0085, U+00A0, U+1680, U+2000..U+200A, U+2028,
  U+2029, U+202F, U+205F, U+3000).
\<close>

definition isspace :: "nat \<Rightarrow> bool" where
  "isspace c \<longleftrightarrow>
     (9 \<le> c \<and> c \<le> 13) \<or> (28 \<le> c \<and> c \<le> 32) \<or> c = 133 \<or> c = 160 \<or> c = 5760 \<or>
     (8192 \<le> c \<and> c \<le> 8202) \<or> c = 8232 \<or> c = 8233 \<or> c = 8239 \<or> c = 8287 \<or> c = 12288"

text \<open>\<^verbatim>\<open>text.strip()\<close>: whitespace is removed at the left end, then at the right end.\<close>

definition strip :: "str \<Rightarrow> str" where
  "strip s = rev (dropWhile isspace (rev (dropWhile isspace s)))"

text \<open>
  \<^verbatim>\<open>s.split(sep)\<close> for a separator of one character: the text is cut at every
  occurrence of \<open>sep\<close>; empty pieces are kept, and the empty text gives one empty piece.
  \<open>cur\<close> is the piece being read.
\<close>

fun split_from :: "nat \<Rightarrow> str \<Rightarrow> str \<Rightarrow> str list" where
  "split_from sep cur [] = [cur]"
| "split_from sep cur (c # cs) =
     (if c = sep then cur # split_from sep [] cs else split_from sep (cur @ [c]) cs)"

definition split :: "nat \<Rightarrow> str \<Rightarrow> str list" where
  "split sep s = split_from sep [] s"

text \<open>\<^verbatim>\<open>sep.join(pieces)\<close> for a separator of one character, the inverse of \<open>split\<close>.\<close>

fun join :: "nat \<Rightarrow> str list \<Rightarrow> str" where
  "join sep [] = []"
| "join sep [l] = l"
| "join sep (l # m # ls) = l @ sep # join sep (m # ls)"

subsection \<open>The remote services\<close>

text \<open>
  What a remote call can raise. The notebook catches nothing, so an exception of a
  call ends the run; the names are those of the interface description.
\<close>

datatype error =
  EmptyInput | ModelUnavailable | ModelTimeout | SearchUnavailable | SearchRateLimited

datatype role = System | Human | AI

text \<open>
  The chat model (\<^verbatim>\<open>ChatNVIDIA(model="mixtral_8x7b")\<close>) maps a list of messages to the text
  of its answer, or fails.
\<close>

type_synonym chat_model = "(role \<times> str) list \<Rightarrow> error + str"

text \<open>A chat model that answers every prompt with the same text, for concrete runs.\<close>

definition canned_reply :: "str \<Rightarrow> chat_model" where
  "canned_reply text messages = Inr text"

subsection \<open>MultiQuery retrieval\<close>

record LineList =
  lines :: "str list"

text \<open>
  \<^verbatim>\<open>LineListOutputParser.parse\<close>:
  \<^verbatim>\<open>lines = text.strip().split("\n"); return LineList(lines=lines)\<close>.
  Code point 10 is the newline.
\<close>

definition parse :: "str \<Rightarrow> LineList" where
  "parse text = (let lines = split 10 (strip text) in \<lparr>lines = lines\<rparr>)"

text \<open>\<^verbatim>\<open>QUERY_PROMPT\<close>: the template, with \<^verbatim>\<open>{question}\<close> at its end.\<close>

definition QUERY_PROMPT :: "str \<Rightarrow> str" where
  "QUERY_PROMPT question =
     str_of ''As an AI language model assistant, your primary objective is to enhance the user's ability to retrieve pertinent documents from a vector database through a distance-based \<newline>''
   @ str_of ''                similarity search. To achieve this, create three distinct versions of the user's original question, focusing on using different wordings for each version. \<newline>''
   @ str_of ''                Each version should offer a unique perspective or rephrasing, aiming to capture a broader range of potential search results by overcoming the inherent limitations of keyword-based searches in vector databases. Ensure that these alternative questions \<newline>''
   @ str_of ''                are diverse in their phrasing and focus, yet remain true to the essence of the original query. Present the rephrased questions one after the other, separated by newlines.\<newline>''
   @ str_of ''                Original question: ''
   @ question"

text \<open>
  \<^verbatim>\<open>multiquery_chain = QUERY_PROMPT | model | LineListOutputParser()\<close>, invoked on
  \<^verbatim>\<open>{"question": question}\<close>: the formatted prompt goes to the chat model as one human
  message, and the answer's text is parsed.
\<close>

definition multiquery_chain :: "chat_model \<Rightarrow> str \<Rightarrow> error + LineList" where
  "multiquery_chain model question =
     (case model [(Human, QUERY_PROMPT question)] of
        Inl e \<Rightarrow> Inl e
      | Inr text \<Rightarrow> Inr (parse text))"

subsection \<open>Step-back prompting\<close>

text \<open>
  \<^verbatim>\<open>examples\<close>: the two worked examples, as (input, output) pairs. Code point 8217 is the
  right single quotation mark of the source text.
\<close>

definition examples :: "(str \<times> str) list" where
  "examples =
     [(str_of ''Could the members of The Police perform lawful arrests?'',
       str_of ''what can the members of The Police do?''),
      (str_of ''Jan Sindel'' @ [8217] @ str_of ''s was born in what country?'',
       str_of ''what is Jan Sindel'' @ [8217] @ str_of ''s personal history?'')]"

text \<open>\<^verbatim>\<open>example_prompt\<close>: a human message with the input, an AI message with the output.\<close>

definition example_prompt :: "str \<times> str \<Rightarrow> (role \<times> str) list" where
  "example_prompt example = [(Human, fst example), (AI, snd example)]"

definition few_shot_prompt :: "(role \<times> str) list" where
  "few_shot_prompt = concat (map example_prompt examples)"

text \<open>
  \<^verbatim>\<open>prompt\<close>: the system instruction (the four adjacent literals of the source, joined as
  Python joins them), the examples, and the question as the user's message.
\<close>

definition prompt :: "str \<Rightarrow> (role \<times> str) list" where
  "prompt question =
     [(System,
       str_of ''You are an expert at world knowledge. Your task is to step back ''
     @ str_of ''and paraphrase a question to one more generic step-back question, which ''
     @ str_of ''is easier to answer and gather foundational knowledge. Ensure only ONE generic step-back question is returned. ONLY RETURN step-back question.''
     @ str_of ''Here are a few examples:'')]
     @ few_shot_prompt
     @ [(Human, question)]"

text \<open>
  \<^verbatim>\<open>StrOutputParser()\<close> hands on the text of the model's message as it is. (The answers
  recorded in the notebook keep their inner newlines.)
\<close>

definition StrOutputParser :: "str \<Rightarrow> str" where
  "StrOutputParser text = text"

text \<open>
  \<^verbatim>\<open>question_gen = {"question": RunnablePassthrough()} | prompt | model | StrOutputParser()\<close>.
\<close>

definition question_gen :: "chat_model \<Rightarrow> str \<Rightarrow> error + str" where
  "question_gen model question =
     (case model (prompt question) of
        Inl e \<Rightarrow> Inl e
      | Inr text \<Rightarrow> Inr (StrOutputParser text))"

text \<open>
  Modelled from the spec: \<^verbatim>\<open>batch\<close>, the method of the chain library behind
  \<^verbatim>\<open>question_gen.batch(res.lines)\<close>, is not in the notebook. The batch form "applies
  the single form independently to each input, preserving input order in the output";
  an error of a call is the error of the batch.
\<close>

fun batch :: "('a \<Rightarrow> error + 'b) \<Rightarrow> 'a list \<Rightarrow> error + 'b list" where
  "batch f [] = Inr []"
| "batch f (x # xs) =
     (case f x of
        Inl e \<Rightarrow> Inl e
      | Inr y \<Rightarrow> (case batch f xs of Inl e \<Rightarrow> Inl e | Inr ys \<Rightarrow> Inr (y # ys)))"

subsection \<open>Web search\<close>

text \<open>
  \<^verbatim>\<open>Document(page_content=...)\<close>: the search cell sets the content only; the metadata of
  a document stays empty and is left out.
\<close>

record Document =
  page_content :: str

text \<open>
  What the search cell does to the world: it sends queries to the search tool and it
  sleeps. The world keeps a clock (in seconds) and the list of these events, oldest
  first.
\<close>

datatype event = Search str | Sleep nat

record world =
  clock :: nat
  events :: "event list"

text \<open>
  The search tool (\<^verbatim>\<open>DuckDuckGoSearchRun()\<close>): for a query, the text found or an error,
  and the seconds the call took.
\<close>

type_synonym search_tool = "str \<Rightarrow> (error + str) \<times> nat"

text \<open>\<^verbatim>\<open>time.sleep(secs)\<close>.\<close>

definition sleep :: "nat \<Rightarrow> world \<Rightarrow> world" where
  "sleep secs w = w\<lparr>clock := clock w + secs, events := events w @ [Sleep secs]\<rparr>"

text \<open>\<^verbatim>\<open>search.run(query)\<close>.\<close>

definition run :: "search_tool \<Rightarrow> str \<Rightarrow> world \<Rightarrow> (error + str) \<times> world" where
  "run search query w =
     (fst (search query),
      w\<lparr>clock := clock w + snd (search query), events := events w @ [Search query]\<rparr>)"

text \<open>
  The loop of the search cell:
  \<^verbatim>\<open>
  for query in queries_to_search:
      search_results.append(Document(page_content=search.run(query)))
      time.sleep(5)
  \<close>
  An exception of \<^verbatim>\<open>search.run\<close> leaves the loop at once.
\<close>

fun search_loop ::
  "search_tool \<Rightarrow> str list \<Rightarrow> Document list \<Rightarrow> world \<Rightarrow> (error + Document list) \<times> world"
where
  "search_loop search [] search_results w = (Inr search_results, w)"
| "search_loop search (query # queries) search_results w =
     (case run search query w of
        (Inl e, w1) \<Rightarrow> (Inl e, w1)
      | (Inr text, w1) \<Rightarrow>
          search_loop search queries (search_results @ [\<lparr>page_content = text\<rparr>]) (sleep 5 w1))"

text \<open>
  The search cell, called \<open>collect\<close> in the description of the program:
  \<^verbatim>\<open>search_results = []\<close>, then the loop.
\<close>

definition collect :: "search_tool \<Rightarrow> str list \<Rightarrow> world \<Rightarrow> (error + Document list) \<times> world" where
  "collect search queries_to_search w = search_loop search queries_to_search [] w"

text \<open>The queries sent and the sleeps taken, read off the events.\<close>

fun requests :: "event list \<Rightarrow> str list" where
  "requests [] = []"
| "requests (Search query # evs) = query # requests evs"
| "requests (Sleep secs # evs) = requests evs"

fun delays :: "event list \<Rightarrow> nat list" where
  "delays [] = []"
| "delays (Search query # evs) = delays evs"
| "delays (Sleep secs # evs) = secs # delays evs"

subsection \<open>Refine and summarise\<close>

text \<open>
  Modelled from the spec: the refine chain,
  \<^verbatim>\<open>load_summarize_chain(model, chain_type="refine")\<close>, is code of the chain library and
  not in the notebook; so are its two prompts, which are parameters here
  (\<open>initial_prompt\<close> of a document's content, \<open>refine_prompt\<close> of the running summary
  and a document's content). The state is the running summary. Step 0 asks the model
  for a summary of the first document alone; step i asks it to revise the running
  summary in the light of document i and replaces the running summary with the answer;
  after the last document the running summary is returned. No documents: the error
  \<open>EmptyInput\<close>. A failing call of the model fails the whole chain.
\<close>

fun refine_steps ::
  "chat_model \<Rightarrow> (str \<Rightarrow> str \<Rightarrow> (role \<times> str) list) \<Rightarrow> str \<Rightarrow> Document list \<Rightarrow> error + str"
where
  "refine_steps model refine_prompt running_summary [] = Inr running_summary"
| "refine_steps model refine_prompt running_summary (document # documents) =
     (case model (refine_prompt running_summary (page_content document)) of
        Inl e \<Rightarrow> Inl e
      | Inr revised \<Rightarrow> refine_steps model refine_prompt revised documents)"

definition refine ::
  "chat_model \<Rightarrow> (str \<Rightarrow> (role \<times> str) list) \<Rightarrow> (str \<Rightarrow> str \<Rightarrow> (role \<times> str) list) \<Rightarrow>
   Document list \<Rightarrow> error + str"
where
  "refine model initial_prompt refine_prompt documents =
     (case documents of
        [] \<Rightarrow> Inl EmptyInput
      | document # rest \<Rightarrow>
          (case model (initial_prompt (page_content document)) of
             Inl e \<Rightarrow> Inl e
           | Inr seed \<Rightarrow> refine_steps model refine_prompt seed rest))"

text \<open>
  One refinement step on a summary that may already have failed: what a left-to-right
  fold over the documents applies at each document.
\<close>

definition revise ::
  "chat_model \<Rightarrow> (str \<Rightarrow> str \<Rightarrow> (role \<times> str) list) \<Rightarrow> error + str \<Rightarrow> Document \<Rightarrow> error + str"
where
  "revise model refine_prompt summary document =
     (case summary of
        Inl e \<Rightarrow> Inl e
      | Inr running_summary \<Rightarrow> model (refine_prompt running_summary (page_content document)))"

subsection \<open>The notebook from question to summary\<close>

text \<open>
  The cells in their order:
  \<^verbatim>\<open>
  res = multiquery_chain.invoke({"question": question})
  stepback_answers = question_gen.batch(res.lines)
  queries_to_search = res.lines + stepback_answers
  search_results = ...            # the search cell
  chain = load_summarize_chain(model, chain_type="refine")
  res = chain.invoke(search_results)
  res['output_text']
  \<close>
\<close>

definition pipeline ::
  "chat_model \<Rightarrow> search_tool \<Rightarrow> (str \<Rightarrow> (role \<times> str) list) \<Rightarrow>
   (str \<Rightarrow> str \<Rightarrow> (role \<times> str) list) \<Rightarrow> str \<Rightarrow> world \<Rightarrow> (error + str) \<times> world"
where
  "pipeline model search initial_prompt refine_prompt question w =
     (case multiquery_chain model question of
        Inl e \<Rightarrow> (Inl e, w)
      | Inr res \<Rightarrow>
          (case batch (question_gen model) (lines res) of
             Inl e \<Rightarrow> (Inl e, w)
           | Inr stepback_answers \<Rightarrow>
               (let queries_to_search = lines res @ stepback_answers in
                case collect search queries_to_search w of
                  (Inl e, w') \<Rightarrow> (Inl e, w')
                | (Inr search_results, w') \<Rightarrow>
                    (refine model initial_prompt refine_prompt search_results, w'))))"

subsection \<open>Stand-ins for the remote services, for concrete runs\<close>

text \<open>A search tool that finds, in one second, a text naming the query.\<close>

definition found :: "search_tool" where
  "found query = (Inr (str_of ''on '' @ query), 1)"

text \<open>Two prompts for the refine chain.\<close>

definition summarise :: "str \<Rightarrow> (role \<times> str) list" where
  "summarise text = [(System, []), (Human, text)]"

definition revise_with :: "str \<Rightarrow> str \<Rightarrow> (role \<times> str) list" where
  "revise_with existing text = [(System, []), (AI, existing), (Human, 43 # text)]"

text \<open>
  A chat model that tells the prompts apart by their number of messages: three lines
  for the expansion prompt (one message); for the step-back prompt (six messages) the
  question, then an empty line, a remark and a blank; for any other prompt the texts
  of its messages one after the other, so that a refined summary lists the documents
  it has seen, joined by the plus sign (code point 43) of \<open>revise_with\<close>.
\<close>

definition scripted :: "chat_model" where
  "scripted messages =
     (if length messages = 1 then Inr (str_of ''a\<newline>b\<newline>c'')
      else if length messages = 6 then Inr (snd (last messages) @ str_of ''?\<newline>\<newline>(generic) '')
      else Inr (concat (map snd messages)))"

text \<open>The data of a run with these stand-ins.\<close>

definition demo_question :: str where
  "demo_question = str_of ''q''"

definition demo_lines :: "str list" where
  "demo_lines = [str_of ''a'', str_of ''b'', str_of ''c'']"

definition demo_answers :: "str list" where
  "demo_answers =
     [str_of ''a?\<newline>\<newline>(generic) '', str_of ''b?\<newline>\<newline>(generic) '',
      str_of ''c?\<newline>\<newline>(generic) '']"

definition demo_texts :: "str list" where
  "demo_texts =
     [str_of ''on a'', str_of ''on b'', str_of ''on c'',
      str_of ''on a?\<newline>\<newline>(generic) '', str_of ''on b?\<newline>\<newline>(generic) '',
      str_of ''on c?\<newline>\<newline>(generic) '']"

definition start :: world where
  "start = \<lparr>clock = 0, events = []\<rparr>"

section \<open>Properties\<close>

subsection \<open>Splitting into lines\<close>

lemma split_from_not_Nil: "split_from sep cur s \<noteq> []"
  by (induction s arbitrary: cur) auto

lemma split_from_no_sep:
  "sep \<notin> set cur \<Longrightarrow> \<forall>l \<in> set (split_from sep cur s). sep \<notin> set l"
proof (induction s arbitrary: cur)
  case Nil
  then show ?case by simp
next
  case (Cons c cs)
  show ?case
  proof (cases "c = sep")
    case True
    have "\<forall>l \<in> set (split_from sep [] cs). sep \<notin> set l"
      by (rule Cons.IH) simp
    with True Cons.prems show ?thesis by simp
  next
    case False
    with Cons.prems have "sep \<notin> set (cur @ [c])" by auto
    then have "\<forall>l \<in> set (split_from sep (cur @ [c]) cs). sep \<notin> set l"
      by (rule Cons.IH)
    with False show ?thesis by simp
  qed
qed

lemma length_split_from: "length (split_from sep cur s) = Suc (count_list s sep)"
  by (induction s arbitrary: cur) auto

lemma join_Cons: "ls \<noteq> [] \<Longrightarrow> join sep (l # ls) = l @ sep # join sep ls"
  by (cases ls) auto

lemma join_split_from: "join sep (split_from sep cur s) = cur @ s"
  by (induction s arbitrary: cur) (auto simp: join_Cons split_from_not_Nil)

lemma split_no_sep: "l \<in> set (split sep s) \<Longrightarrow> sep \<notin> set l"
  using split_from_no_sep [of sep "[]" s] by (simp add: split_def)

lemma length_split: "length (split sep s) = Suc (count_list s sep)"
  by (simp add: split_def length_split_from)

lemma join_split: "join sep (split sep s) = s"
  by (simp add: split_def join_split_from)

lemma lines_parse: "lines (parse text) = split 10 (strip text)"
  by (simp add: parse_def)

lemma strip_Nil: "strip [] = []"
  by (simp add: strip_def)

lemma multiquery_chain_answer:
  "model [(Human, QUERY_PROMPT question)] = Inr text \<Longrightarrow>
   multiquery_chain model question = Inr (parse text)"
  by (simp add: multiquery_chain_def)

subsection \<open>Calls that all succeed\<close>

text \<open>
  A list of calls is described by the list of their answers: \<open>map f xs = map Inr ys\<close>
  says that every call \<open>f x\<close> succeeded, and \<open>ys\<close> are the answers in the order of \<open>xs\<close>.
\<close>

lemma answered_length: "map f xs = map Inr ys \<Longrightarrow> length ys = length xs"
  by (metis length_map)

lemma answered_split:
  assumes "map f (xs @ ys) = map Inr texts"
  shows "map f xs = map Inr (take (length xs) texts)"
    and "map f ys = map Inr (drop (length xs) texts)"
proof -
  have "map f xs @ map f ys = map Inr texts"
    using assms by simp
  then have "map f xs = take (length xs) (map Inr texts)"
    and "map f ys = drop (length xs) (map Inr texts)"
    by (simp_all add: append_eq_conv_conj)
  then show "map f xs = map Inr (take (length xs) texts)"
    and "map f ys = map Inr (drop (length xs) texts)"
    by (simp_all add: take_map drop_map)
qed

lemma batch_ok: "map f xs = map Inr ys \<Longrightarrow> batch f xs = Inr ys"
proof (induction xs arbitrary: ys)
  case Nil
  then show ?case by simp
next
  case (Cons x xs)
  then obtain y ys' where ys: "ys = y # ys'" "f x = Inr y" "map f xs = map Inr ys'"
    by (cases ys) auto
  with Cons.IH [of ys'] show ?case by simp
qed

lemma batch_returns: "batch f xs = Inr ys \<Longrightarrow> map f xs = map Inr ys"
  by (induction xs arbitrary: ys) (auto split: sum.splits)

lemma question_gen_model: "question_gen model q = model (prompt q)"
  by (cases "model (prompt q)") (simp_all add: question_gen_def StrOutputParser_def)

subsection \<open>The search loop\<close>

lemma search_loop_ok:
  "map (\<lambda>q. fst (search q)) queries = map Inr texts \<Longrightarrow>
   search_loop search queries acc w =
     (Inr (acc @ map (\<lambda>t. \<lparr>page_content = t\<rparr>) texts),
      w\<lparr>clock := clock w + (\<Sum>q\<leftarrow>queries. snd (search q) + 5),
        events := events w @ concat (map (\<lambda>q. [Search q, Sleep 5]) queries)\<rparr>)"
proof (induction queries arbitrary: texts acc w)
  case Nil
  then show ?case by simp
next
  case (Cons q queries)
  then obtain t ts where ts: "texts = t # ts" "fst (search q) = Inr t"
      "map (\<lambda>q. fst (search q)) queries = map Inr ts"
    by (cases texts) auto
  show ?case
    by (simp add: ts run_def sleep_def Cons.IH [OF ts(3)] add.assoc)
qed

lemma collect_ok:
  assumes "map (\<lambda>q. fst (search q)) queries = map Inr texts"
  shows "collect search queries w =
     (Inr (map (\<lambda>t. \<lparr>page_content = t\<rparr>) texts),
      w\<lparr>clock := clock w + (\<Sum>q\<leftarrow>queries. snd (search q) + 5),
        events := events w @ concat (map (\<lambda>q. [Search q, Sleep 5]) queries)\<rparr>)"
  using search_loop_ok [OF assms, of "[]" w] by (simp add: collect_def)

text \<open>
  The other runs: the first query that the search tool fails on ends the loop with that
  error, after the searches and sleeps of the queries before it, and with no sleep
  after the failed search.
\<close>

lemma search_loop_fails_fast:
  "map (\<lambda>q. fst (search q)) queries = map Inr texts \<Longrightarrow> fst (search query) = Inl e \<Longrightarrow>
   search_loop search (queries @ query # rest) acc w =
     (Inl e,
      w\<lparr>clock := clock w + (\<Sum>q\<leftarrow>queries. snd (search q) + 5) + snd (search query),
        events := events w @ concat (map (\<lambda>q. [Search q, Sleep 5]) queries) @ [Search query]\<rparr>)"
proof (induction queries arbitrary: texts acc w)
  case Nil
  then show ?case by (simp add: run_def)
next
  case (Cons q queries)
  then obtain t ts where ts: "texts = t # ts" "fst (search q) = Inr t"
      "map (\<lambda>q. fst (search q)) queries = map Inr ts"
    by (cases texts) auto
  show ?case
    by (simp add: ts run_def sleep_def Cons.IH [OF ts(3) Cons.prems(2)] add.assoc)
qed

lemma requests_append: "requests (evs @ evs') = requests evs @ requests evs'"
  by (induction evs rule: requests.induct) auto

lemma delays_append: "delays (evs @ evs') = delays evs @ delays evs'"
  by (induction evs rule: delays.induct) auto

lemma requests_rounds: "requests (concat (map (\<lambda>q. [Search q, Sleep d]) queries)) = queries"
  by (induction queries) auto

lemma delays_rounds:
  "delays (concat (map (\<lambda>q. [Search q, Sleep d]) queries)) = replicate (length queries) d"
  by (induction queries) auto

lemma sum_rounds: "int (length queries) * 5 \<le> int (\<Sum>q\<leftarrow>queries. snd (search q) + 5)"
  for search :: search_tool
  by (induction queries) auto

lemma sum_rounds_split:
  "(\<Sum>q\<leftarrow>queries. snd (search q) + 5) = (\<Sum>q\<leftarrow>queries. snd (search q)) + length queries * 5"
  for search :: search_tool
  by (induction queries) auto

lemma last_rounds:
  "queries \<noteq> [] \<Longrightarrow> last (xs @ concat (map (\<lambda>q. [Search q, Sleep d]) queries)) = Sleep d"
  by (induction queries arbitrary: xs) auto

subsection \<open>The refine chain as a fold\<close>

lemma revise_Inl: "revise model rp (Inl e) d = Inl e"
  by (simp add: revise_def)

lemma revise_Inr: "revise model rp (Inr s) d = model (rp s (page_content d))"
  by (simp add: revise_def)

lemma foldl_revise_Inl: "foldl (revise model rp) (Inl e) docs = Inl e"
  by (induction docs) (simp_all add: revise_Inl)

lemma refine_steps_fold:
  "refine_steps model rp s docs = foldl (revise model rp) (Inr s) docs"
proof (induction docs arbitrary: s)
  case Nil
  then show ?case by simp
next
  case (Cons d docs)
  show ?case
    by (cases "model (rp s (page_content d))")
      (simp_all add: revise_Inr Cons.IH foldl_revise_Inl)
qed

lemma refine_steps_snoc:
  "refine_steps model rp s (docs @ [d]) = revise model rp (refine_steps model rp s docs) d"
  by (simp add: refine_steps_fold)

lemma refine_snoc:
  "docs \<noteq> [] \<Longrightarrow>
   refine model ip rp (docs @ [d]) = revise model rp (refine model ip rp docs) d"
proof (cases docs)
  case Nil
  assume "docs \<noteq> []"
  with Nil show ?thesis by simp
next
  case (Cons d0 ds)
  show ?thesis
    by (cases "model (ip (page_content d0))")
      (simp_all add: Cons refine_def revise_Inl refine_steps_snoc)
qed

subsection \<open>The whole run\<close>

lemma pipeline_ok:
  assumes "multiquery_chain model question = Inr res"
      and "map (question_gen model) (lines res) = map Inr answers"
      and "map (\<lambda>q. fst (search q)) (lines res @ answers) = map Inr texts"
  shows "pipeline model search ip rp question w =
     (refine model ip rp (map (\<lambda>t. \<lparr>page_content = t\<rparr>) texts),
      w\<lparr>clock := clock w + (\<Sum>q\<leftarrow>lines res @ answers. snd (search q) + 5),
        events := events w @ concat (map (\<lambda>q. [Search q, Sleep 5]) (lines res @ answers))\<rparr>)"
  by (simp add: pipeline_def assms(1) batch_ok [OF assms(2)] collect_ok [OF assms(3)])

text \<open>
  The parser never returns an empty list of lines, so the list of queries and, when
  every search succeeds, the list of documents handed to the refine chain are never
  empty in a run of the notebook.
\<close>

lemma lines_parse_not_Nil: "lines (parse text) \<noteq> []"
  by (simp add: lines_parse split_def split_from_not_Nil)

subsection \<open>The run with the stand-ins\<close>

lemma length_prompt: "length (prompt q) = 6"
  by (simp add: prompt_def few_shot_prompt_def examples_def example_prompt_def)

lemma last_prompt: "last (prompt q) = (Human, q)"
  by (simp add: prompt_def)

lemma scripted_prompt: "scripted (prompt q) = Inr (q @ str_of ''?\<newline>\<newline>(generic) '')"
  by (simp add: scripted_def length_prompt last_prompt)

lemma demo_expansion: "multiquery_chain scripted demo_question = Inr \<lparr>lines = demo_lines\<rparr>"
  by (simp add: multiquery_chain_def scripted_def parse_def strip_def split_def isspace_def
      str_of_def demo_lines_def)

lemma demo_stepback: "map (question_gen scripted) demo_lines = map Inr demo_answers"
  by (simp add: question_gen_model scripted_prompt demo_lines_def demo_answers_def str_of_def)

lemma demo_replies: "map (\<lambda>q. scripted (prompt q)) demo_lines = map Inr demo_answers"
  by (simp add: scripted_prompt demo_lines_def demo_answers_def str_of_def)

lemma demo_search: "map (\<lambda>q. fst (found q)) (demo_lines @ demo_answers) = map Inr demo_texts"
  by (simp add: found_def demo_lines_def demo_answers_def demo_texts_def str_of_def)

section \<open>The claims\<close>

subsection \<open>The refine chain\<close>

text \<open>
  C1. On a non-empty sequence of documents \<open>refine\<close> is a strict left-to-right fold: the
  seed is the model's answer to the initial prompt of the first document alone; every
  later document, in order, replaces the running summary by the model's revision of it
  (\<open>revise\<close>, which also carries a failed call through); the result is the running
  summary after the last document. On one document the result is the seed, and no
  refinement prompt is built.
\<close>

theorem refine_is_left_fold:
  "refine model initial_prompt refine_prompt (document # documents)
     = foldl (revise model refine_prompt)
         (model (initial_prompt (page_content document))) documents
   \<and> refine model initial_prompt refine_prompt [document]
     = model (initial_prompt (page_content document))"
  by (cases "model (initial_prompt (page_content document))")
    (simp_all add: refine_def refine_steps_fold foldl_revise_Inl)

theorem refine_is_left_fold_witness:
  "refine scripted summarise revise_with
     (\<lparr>page_content = str_of ''x''\<rparr> # [\<lparr>page_content = str_of ''y''\<rparr>, \<lparr>page_content = str_of ''z''\<rparr>])
     = foldl (revise scripted revise_with)
         (scripted (summarise (page_content \<lparr>page_content = str_of ''x''\<rparr>)))
         [\<lparr>page_content = str_of ''y''\<rparr>, \<lparr>page_content = str_of ''z''\<rparr>]
   \<and> foldl (revise scripted revise_with)
         (scripted (summarise (page_content \<lparr>page_content = str_of ''x''\<rparr>)))
         [\<lparr>page_content = str_of ''y''\<rparr>, \<lparr>page_content = str_of ''z''\<rparr>]
     = Inr (str_of ''x+y+z'')
   \<and> refine scripted summarise revise_with [\<lparr>page_content = str_of ''x''\<rparr>]
     = Inr (str_of ''x'')"
proof -
  have "foldl (revise scripted revise_with)
         (scripted (summarise (page_content \<lparr>page_content = str_of ''x''\<rparr>)))
         [\<lparr>page_content = str_of ''y''\<rparr>, \<lparr>page_content = str_of ''z''\<rparr>]
     = Inr (str_of ''x+y+z'')"
    by (simp add: revise_def scripted_def summarise_def revise_with_def str_of_def)
  moreover have "scripted (summarise (page_content \<lparr>page_content = str_of ''x''\<rparr>))
     = Inr (str_of ''x'')"
    by (simp add: scripted_def summarise_def)
  ultimately show ?thesis
    using refine_is_left_fold [of scripted summarise revise_with
        "\<lparr>page_content = str_of ''x''\<rparr>"
        "[\<lparr>page_content = str_of ''y''\<rparr>, \<lparr>page_content = str_of ''z''\<rparr>]"]
    by simp
qed

text \<open>
  C2. On the empty sequence of documents \<open>refine\<close> fails with \<open>EmptyInput\<close>; it returns
  no summary.
\<close>

theorem refine_no_documents:
  "refine model initial_prompt refine_prompt [] = Inl EmptyInput"
  by (simp add: refine_def)

subsection \<open>The run from question to summary\<close>

text \<open>
  C3. A run in which the expansion gives three lines, the model answers the step-back
  prompt of each line and the search tool answers all queries: the queries are the
  three lines followed by the three step-back answers, so six texts are found, the
  first three for the lines and the last three for the step-back answers; the search
  cell returns the six documents in this order, the refine chain receives exactly
  them, and the output of the run is the result of the last refinement step, the
  revision of the summary of the first five documents in the light of the sixth.
\<close>

theorem pipeline_six_documents:
  assumes "multiquery_chain model question = Inr res"
      and "length (lines res) = 3"
      and "map (question_gen model) (lines res) = map Inr answers"
      and "map (\<lambda>q. fst (search q)) (lines res @ answers) = map Inr texts"
  shows "length texts = 6
       \<and> map (\<lambda>q. fst (search q)) (lines res) = map Inr (take 3 texts)
       \<and> map (\<lambda>q. fst (search q)) answers = map Inr (drop 3 texts)
       \<and> (\<exists>w'. collect search (lines res @ answers) w
                  = (Inr (map (\<lambda>t. \<lparr>page_content = t\<rparr>) texts), w'))
       \<and> fst (pipeline model search initial_prompt refine_prompt question w)
           = refine model initial_prompt refine_prompt (map (\<lambda>t. \<lparr>page_content = t\<rparr>) texts)
       \<and> refine model initial_prompt refine_prompt (map (\<lambda>t. \<lparr>page_content = t\<rparr>) texts)
           = revise model refine_prompt
               (refine model initial_prompt refine_prompt
                  (map (\<lambda>t. \<lparr>page_content = t\<rparr>) (take 5 texts)))
               \<lparr>page_content = texts ! 5\<rparr>"
proof -
  have "length answers = 3"
    using answered_length [OF assms(3)] assms(2) by simp
  then have six: "length texts = 6"
    using answered_length [OF assms(4)] assms(2) by simp
  have first: "map (\<lambda>q. fst (search q)) (lines res) = map Inr (take 3 texts)"
    using answered_split(1) [OF assms(4)] assms(2) by simp
  have rest: "map (\<lambda>q. fst (search q)) answers = map Inr (drop 3 texts)"
    using answered_split(2) [OF assms(4)] assms(2) by simp
  have collected: "\<exists>w'. collect search (lines res @ answers) w
      = (Inr (map (\<lambda>t. \<lparr>page_content = t\<rparr>) texts), w')"
    by (simp add: collect_ok [OF assms(4)])
  have out: "fst (pipeline model search initial_prompt refine_prompt question w)
      = refine model initial_prompt refine_prompt (map (\<lambda>t. \<lparr>page_content = t\<rparr>) texts)"
    by (simp add: pipeline_ok [OF assms(1) assms(3) assms(4)])
  have "texts = take 5 texts @ [texts ! 5]"
    using six take_Suc_conv_app_nth [of 5 texts] by simp
  then have "map (\<lambda>t. \<lparr>page_content = t\<rparr>) texts
      = map (\<lambda>t. \<lparr>page_content = t\<rparr>) (take 5 texts) @ [\<lparr>page_content = texts ! 5\<rparr>]"
    by (metis list.simps(8) list.simps(9) map_append)
  moreover have "map (\<lambda>t. \<lparr>page_content = t\<rparr>) (take 5 texts) \<noteq> []"
    using six by auto
  ultimately have last_step:
    "refine model initial_prompt refine_prompt (map (\<lambda>t. \<lparr>page_content = t\<rparr>) texts)
       = revise model refine_prompt
           (refine model initial_prompt refine_prompt
              (map (\<lambda>t. \<lparr>page_content = t\<rparr>) (take 5 texts)))
           \<lparr>page_content = texts ! 5\<rparr>"
    using refine_snoc by metis
  from six first rest collected out last_step show ?thesis by blast
qed

theorem pipeline_six_documents_witness:
  "multiquery_chain scripted demo_question = Inr \<lparr>lines = demo_lines\<rparr>
   \<and> length (lines \<lparr>lines = demo_lines\<rparr>) = 3
   \<and> map (question_gen scripted) (lines \<lparr>lines = demo_lines\<rparr>) = map Inr demo_answers
   \<and> map (\<lambda>q. fst (found q)) (lines \<lparr>lines = demo_lines\<rparr> @ demo_answers) = map Inr demo_texts
   \<and> length demo_texts = 6
   \<and> map (\<lambda>q. fst (found q)) (lines \<lparr>lines = demo_lines\<rparr>) = map Inr (take 3 demo_texts)
   \<and> map (\<lambda>q. fst (found q)) demo_answers = map Inr (drop 3 demo_texts)
   \<and> (\<exists>w'. collect found (lines \<lparr>lines = demo_lines\<rparr> @ demo_answers) start
              = (Inr (map (\<lambda>t. \<lparr>page_content = t\<rparr>) demo_texts), w'))
   \<and> fst (pipeline scripted found summarise revise_with demo_question start)
       = refine scripted summarise revise_with (map (\<lambda>t. \<lparr>page_content = t\<rparr>) demo_texts)
   \<and> refine scripted summarise revise_with (map (\<lambda>t. \<lparr>page_content = t\<rparr>) demo_texts)
       = revise scripted revise_with
           (refine scripted summarise revise_with
              (map (\<lambda>t. \<lparr>page_content = t\<rparr>) (take 5 demo_texts)))
           \<lparr>page_content = demo_texts ! 5\<rparr>"
proof -
  have h1: "multiquery_chain scripted demo_question = Inr \<lparr>lines = demo_lines\<rparr>"
    by (rule demo_expansion)
  have h2: "length (lines \<lparr>lines = demo_lines\<rparr>) = 3"
    by (simp add: demo_lines_def)
  have h3: "map (question_gen scripted) (lines \<lparr>lines = demo_lines\<rparr>) = map Inr demo_answers"
    using demo_stepback by simp
  have h4: "map (\<lambda>q. fst (found q)) (lines \<lparr>lines = demo_lines\<rparr> @ demo_answers)
      = map Inr demo_texts"
    using demo_search by simp
  show ?thesis
    using h1 h2 h3 h4
      pipeline_six_documents [where model = scripted and question = demo_question
        and res = "\<lparr>lines = demo_lines\<rparr>" and answers = demo_answers and search = found
        and texts = demo_texts and initial_prompt = summarise and refine_prompt = revise_with
        and w = start]
    by blast
qed

subsection \<open>What the query expander returns\<close>

text \<open>
  C4 (as amended). Whenever the chat model answers the expansion prompt, the lines that
  \<open>multiquery_chain\<close> returns contain no newline, and joined with newlines they are
  exactly the answer with the whitespace at its two ends removed. So there is one
  element per line of the trimmed answer, one more than it has newlines: never none,
  and no fixed count of three. Nothing is said about single lines being non-empty or
  trimmed: the answer is trimmed as a whole, and an empty line inside it stays.
\<close>

theorem multiquery_chain_lines:
  assumes "model [(Human, QUERY_PROMPT question)] = Inr text"
  shows "\<exists>res. multiquery_chain model question = Inr res
           \<and> (\<forall>l \<in> set (lines res). 10 \<notin> set l)
           \<and> join 10 (lines res) = strip text
           \<and> length (lines res) = Suc (count_list (strip text) 10)"
proof -
  have "multiquery_chain model question = Inr (parse text)"
    using assms by (rule multiquery_chain_answer)
  moreover have "\<forall>l \<in> set (lines (parse text)). 10 \<notin> set l"
    by (simp add: lines_parse split_no_sep)
  moreover have "join 10 (lines (parse text)) = strip text"
    by (simp add: lines_parse join_split)
  moreover have "length (lines (parse text)) = Suc (count_list (strip text) 10)"
    by (simp add: lines_parse length_split)
  ultimately show ?thesis by blast
qed

theorem multiquery_chain_lines_witness:
  "canned_reply (str_of ''1. a\<newline>2. b\<newline>3. c\<newline>'') [(Human, QUERY_PROMPT (str_of ''q''))]
     = Inr (str_of ''1. a\<newline>2. b\<newline>3. c\<newline>'')
   \<and> (\<exists>res. multiquery_chain (canned_reply (str_of ''1. a\<newline>2. b\<newline>3. c\<newline>'')) (str_of ''q'') = Inr res
           \<and> (\<forall>l \<in> set (lines res). 10 \<notin> set l)
           \<and> join 10 (lines res) = strip (str_of ''1. a\<newline>2. b\<newline>3. c\<newline>'')
           \<and> length (lines res) = Suc (count_list (strip (str_of ''1. a\<newline>2. b\<newline>3. c\<newline>'')) 10))"
proof -
  have h: "canned_reply (str_of ''1. a\<newline>2. b\<newline>3. c\<newline>'') [(Human, QUERY_PROMPT (str_of ''q''))]
     = Inr (str_of ''1. a\<newline>2. b\<newline>3. c\<newline>'')"
    by (simp add: canned_reply_def)
  show ?thesis
    using h multiquery_chain_lines
      [of "canned_reply (str_of ''1. a\<newline>2. b\<newline>3. c\<newline>'')" "str_of ''q''"
          "str_of ''1. a\<newline>2. b\<newline>3. c\<newline>''"]
    by blast
qed

text \<open>
  C4 as stated fails: an answer with an empty line and an indented line gives an empty
  element and an element that starts with a blank.
\<close>

theorem multiquery_chain_keeps_empty_and_untrimmed_lines:
  "multiquery_chain (canned_reply (str_of ''1. a\<newline>\<newline> 2. b'')) (str_of ''q'')
     = Inr \<lparr>lines = [str_of ''1. a'', [], str_of '' 2. b'']\<rparr>"
  by (simp add: multiquery_chain_def canned_reply_def parse_def strip_def
      split_def isspace_def str_of_def)

text \<open>
  C5 (as amended). When the chat model answers the expansion prompt with the empty
  text, \<open>multiquery_chain\<close> does not fail: it returns the sequence whose only element is
  the empty string.
\<close>

theorem multiquery_chain_empty_answer:
  assumes "model [(Human, QUERY_PROMPT question)] = Inr []"
  shows "multiquery_chain model question = Inr \<lparr>lines = [[]]\<rparr>"
proof -
  have "multiquery_chain model question = Inr (parse [])"
    using assms by (rule multiquery_chain_answer)
  moreover have "parse [] = \<lparr>lines = [[]]\<rparr>"
    by (simp add: parse_def strip_Nil split_def)
  ultimately show ?thesis by simp
qed

theorem multiquery_chain_empty_answer_witness:
  "canned_reply [] [(Human, QUERY_PROMPT (str_of ''q''))] = Inr []
   \<and> multiquery_chain (canned_reply []) (str_of ''q'') = Inr \<lparr>lines = [[]]\<rparr>"
proof -
  have h: "canned_reply [] [(Human, QUERY_PROMPT (str_of ''q''))] = Inr []"
    by (simp add: canned_reply_def)
  show ?thesis
    using h multiquery_chain_empty_answer [of "canned_reply []" "str_of ''q''"] by simp
qed

text \<open>
  C5 as stated fails: for the empty answer the returned sequence has one element, so it
  is not the empty sequence.
\<close>

theorem multiquery_chain_empty_answer_not_empty:
  "multiquery_chain (canned_reply []) (str_of ''q'') = Inr \<lparr>lines = [[]]\<rparr>
   \<and> multiquery_chain (canned_reply []) (str_of ''q'') \<noteq> Inr \<lparr>lines = []\<rparr>"
  by (simp add: multiquery_chain_def canned_reply_def parse_def strip_def split_def)

subsection \<open>What the search cell returns and does\<close>

text \<open>
  C6. When the search tool answers every query, \<open>collect\<close> on k queries returns k
  documents, the i-th wrapping the whole text found for the i-th query, and it has sent
  exactly the k queries, in their order, one search for each element of the list (a
  query that occurs twice is searched twice).
\<close>

theorem collect_one_document_per_query:
  assumes "map (\<lambda>q. fst (search q)) queries = map Inr texts"
  shows "\<exists>docs w'. collect search queries w = (Inr docs, w')
           \<and> length docs = length queries
           \<and> docs = map (\<lambda>t. \<lparr>page_content = t\<rparr>) texts
           \<and> requests (events w') = requests (events w) @ queries"
  using answered_length [OF assms]
  by (simp add: collect_ok [OF assms] requests_append requests_rounds)

theorem collect_one_document_per_query_witness:
  "map (\<lambda>q. fst (found q)) [str_of ''x'', str_of ''x''] = map Inr [str_of ''on x'', str_of ''on x'']
   \<and> (\<exists>docs w'. collect found [str_of ''x'', str_of ''x''] start = (Inr docs, w')
           \<and> length docs = length [str_of ''x'', str_of ''x'']
           \<and> docs = map (\<lambda>t. \<lparr>page_content = t\<rparr>) [str_of ''on x'', str_of ''on x'']
           \<and> requests (events w') = requests (events start) @ [str_of ''x'', str_of ''x''])"
proof -
  have h: "map (\<lambda>q. fst (found q)) [str_of ''x'', str_of ''x'']
      = map Inr [str_of ''on x'', str_of ''on x'']"
    by (simp add: found_def str_of_def)
  show ?thesis
    using h collect_one_document_per_query [where search = found
        and queries = "[str_of ''x'', str_of ''x'']"
        and texts = "[str_of ''on x'', str_of ''on x'']" and w = start]
    by blast
qed

text \<open>
  C7. When the search tool answers every query, the events of \<open>collect\<close> are, for each
  query in turn, its search followed by a sleep of 5: one search at a time, and a wait
  of 5 after each search before the next one. The clock advances by at least
  (k - 1) * 5 for k queries.
\<close>

theorem collect_waits_after_each_search:
  assumes "map (\<lambda>q. fst (search q)) queries = map Inr texts"
  shows "\<exists>r w'. collect search queries w = (r, w')
           \<and> events w' = events w @ concat (map (\<lambda>q. [Search q, Sleep 5]) queries)
           \<and> (int (length queries) - 1) * 5 \<le> int (clock w') - int (clock w)"
  using sum_rounds [of queries search]
  by (simp add: collect_ok [OF assms])

theorem collect_waits_after_each_search_witness:
  "map (\<lambda>q. fst (found q)) [str_of ''x'', str_of ''y''] = map Inr [str_of ''on x'', str_of ''on y'']
   \<and> (\<exists>r w'. collect found [str_of ''x'', str_of ''y''] start = (r, w')
           \<and> events w' = events start
                 @ concat (map (\<lambda>q. [Search q, Sleep 5]) [str_of ''x'', str_of ''y''])
           \<and> (int (length [str_of ''x'', str_of ''y'']) - 1) * 5
                 \<le> int (clock w') - int (clock start))"
proof -
  have h: "map (\<lambda>q. fst (found q)) [str_of ''x'', str_of ''y'']
      = map Inr [str_of ''on x'', str_of ''on y'']"
    by (simp add: found_def str_of_def)
  show ?thesis
    using h collect_waits_after_each_search [where search = found
        and queries = "[str_of ''x'', str_of ''y'']"
        and texts = "[str_of ''on x'', str_of ''on y'']" and w = start]
    by blast
qed

text \<open>
  C9. When the search tool answers every query of a non-empty list of k queries, the
  events of \<open>collect\<close> are, for each query in turn, its search and then a sleep of 5:
  a sleep follows every search, the last one too, so the last event is a sleep. These
  are all the sleeps, k of them, and they add up to k * 5. The clock advances by the
  time the searches took and by these k * 5 of sleep. Both the time slept and the time
  elapsed are more than (k - 1) * 5.
\<close>

theorem collect_sleeps_after_every_search:
  assumes "queries \<noteq> []"
      and "map (\<lambda>q. fst (search q)) queries = map Inr texts"
  shows "\<exists>r w'. collect search queries w = (r, w')
           \<and> events w' = events w @ concat (map (\<lambda>q. [Search q, Sleep 5]) queries)
           \<and> last (events w') = Sleep 5
           \<and> delays (events w') = delays (events w) @ replicate (length queries) 5
           \<and> sum_list (delays (events w')) = sum_list (delays (events w)) + length queries * 5
           \<and> clock w' = clock w + (\<Sum>q\<leftarrow>queries. snd (search q)) + length queries * 5
           \<and> (int (length queries) - 1) * 5
                 < int (sum_list (delays (events w'))) - int (sum_list (delays (events w)))
           \<and> (int (length queries) - 1) * 5 < int (clock w') - int (clock w)"
proof -
  have "0 < length queries"
    using assms(1) by simp
  then show ?thesis
    using last_rounds [OF assms(1), of "events w" 5]
    by (simp add: collect_ok [OF assms(2)] delays_append delays_rounds sum_list_replicate
        sum_rounds_split)
qed

theorem collect_sleeps_after_every_search_witness:
  "[str_of ''x'', str_of ''y'', str_of ''x''] \<noteq> []
   \<and> map (\<lambda>q. fst (found q)) [str_of ''x'', str_of ''y'', str_of ''x'']
       = map Inr [str_of ''on x'', str_of ''on y'', str_of ''on x'']
   \<and> (\<exists>r w'. collect found [str_of ''x'', str_of ''y'', str_of ''x''] start = (r, w')
           \<and> events w' = events start
                 @ concat (map (\<lambda>q. [Search q, Sleep 5]) [str_of ''x'', str_of ''y'', str_of ''x''])
           \<and> last (events w') = Sleep 5
           \<and> delays (events w') = delays (events start)
                 @ replicate (length [str_of ''x'', str_of ''y'', str_of ''x'']) 5
           \<and> sum_list (delays (events w')) = sum_list (delays (events start))
                 + length [str_of ''x'', str_of ''y'', str_of ''x''] * 5
           \<and> clock w' = clock start
                 + (\<Sum>q\<leftarrow>[str_of ''x'', str_of ''y'', str_of ''x'']. snd (found q))
                 + length [str_of ''x'', str_of ''y'', str_of ''x''] * 5
           \<and> (int (length [str_of ''x'', str_of ''y'', str_of ''x'']) - 1) * 5
                 < int (sum_list (delays (events w'))) - int (sum_list (delays (events start)))
           \<and> (int (length [str_of ''x'', str_of ''y'', str_of ''x'']) - 1) * 5
                 < int (clock w') - int (clock start))"
proof -
  have h1: "[str_of ''x'', str_of ''y'', str_of ''x''] \<noteq> []"
    by simp
  have h2: "map (\<lambda>q. fst (found q)) [str_of ''x'', str_of ''y'', str_of ''x'']
      = map Inr [str_of ''on x'', str_of ''on y'', str_of ''on x'']"
    by (simp add: found_def str_of_def)
  show ?thesis
    using h1 h2 collect_sleeps_after_every_search [where search = found
        and queries = "[str_of ''x'', str_of ''y'', str_of ''x'']"
        and texts = "[str_of ''on x'', str_of ''on y'', str_of ''on x'']" and w = start]
    by blast
qed

subsection \<open>Step-back questions\<close>

text \<open>
  C8. When the model answers the step-back prompt of each of k questions, the batch
  returns the k answers in the order of the questions, and the i-th answer is what
  \<open>question_gen\<close> alone returns for the i-th question, whatever the other questions are.
\<close>

theorem batch_question_gen:
  assumes "map (question_gen model) questions = map Inr answers"
  shows "batch (question_gen model) questions = Inr answers
       \<and> length answers = length questions
       \<and> (\<forall>i<length questions. question_gen model (questions ! i) = Inr (answers ! i))"
proof -
  have "length answers = length questions"
    using assms by (rule answered_length)
  moreover have "question_gen model (questions ! i) = Inr (answers ! i)"
    if "i < length questions" for i
    using that assms calculation by (metis nth_map)
  ultimately show ?thesis
    using batch_ok [OF assms] by simp
qed

theorem batch_question_gen_witness:
  "map (question_gen scripted) demo_lines = map Inr demo_answers
   \<and> batch (question_gen scripted) demo_lines = Inr demo_answers
   \<and> length demo_answers = length demo_lines
   \<and> question_gen scripted (demo_lines ! 0) = Inr (demo_answers ! 0)
   \<and> question_gen scripted (demo_lines ! 1) = Inr (demo_answers ! 1)
   \<and> question_gen scripted (demo_lines ! 2) = Inr (demo_answers ! 2)"
proof -
  have len: "length demo_lines = 3"
    by (simp add: demo_lines_def)
  show ?thesis
    using demo_stepback batch_question_gen [of scripted demo_lines demo_answers] len
    by simp
qed

text \<open>
  C10. \<open>question_gen\<close> returns what the model answered to the step-back prompt, text or
  error, unchanged: nothing is trimmed and no newline is removed. In a run in which
  the model answers the step-back prompts and the search tool answers all queries, the
  batch returns the model's answers as they are, and the queries sent to the search
  tool are the lines followed by these answers, each answer one query, character for
  character.
\<close>

theorem stepback_answers_unprocessed:
  assumes "multiquery_chain model question = Inr res"
      and "map (\<lambda>q. model (prompt q)) (lines res) = map Inr replies"
      and "map (\<lambda>q. fst (search q)) (lines res @ replies) = map Inr texts"
  shows "question_gen model q = model (prompt q)
       \<and> batch (question_gen model) (lines res) = Inr replies
       \<and> requests (events (snd (pipeline model search initial_prompt refine_prompt question w)))
           = requests (events w) @ lines res @ replies"
proof -
  have "question_gen model = (\<lambda>q. model (prompt q))"
    by (rule ext) (rule question_gen_model)
  then have answers: "map (question_gen model) (lines res) = map Inr replies"
    using assms(2) by simp
  show ?thesis
    by (simp add: question_gen_model batch_ok [OF answers]
        pipeline_ok [OF assms(1) answers assms(3)] requests_append requests_rounds)
qed

theorem stepback_answers_unprocessed_witness:
  "multiquery_chain scripted demo_question = Inr \<lparr>lines = demo_lines\<rparr>
   \<and> map (\<lambda>q. scripted (prompt q)) (lines \<lparr>lines = demo_lines\<rparr>) = map Inr demo_answers
   \<and> map (\<lambda>q. fst (found q)) (lines \<lparr>lines = demo_lines\<rparr> @ demo_answers) = map Inr demo_texts
   \<and> question_gen scripted (str_of ''a'') = scripted (prompt (str_of ''a''))
   \<and> scripted (prompt (str_of ''a'')) = Inr (str_of ''a?\<newline>\<newline>(generic) '')
   \<and> batch (question_gen scripted) (lines \<lparr>lines = demo_lines\<rparr>) = Inr demo_answers
   \<and> requests (events (snd (pipeline scripted found summarise revise_with demo_question start)))
       = requests (events start) @ lines \<lparr>lines = demo_lines\<rparr> @ demo_answers"
proof -
  have h1: "multiquery_chain scripted demo_question = Inr \<lparr>lines = demo_lines\<rparr>"
    by (rule demo_expansion)
  have h2: "map (\<lambda>q. scripted (prompt q)) (lines \<lparr>lines = demo_lines\<rparr>) = map Inr demo_answers"
    using demo_replies by simp
  have h3: "map (\<lambda>q. fst (found q)) (lines \<lparr>lines = demo_lines\<rparr> @ demo_answers)
      = map Inr demo_texts"
    using demo_search by simp
  have reply: "scripted (prompt (str_of ''a'')) = Inr (str_of ''a?\<newline>\<newline>(generic) '')"
    by (simp add: scripted_prompt str_of_def)
  show ?thesis
    using h1 h2 h3 reply
      stepback_answers_unprocessed [where model = scripted and question = demo_question
        and res = "\<lparr>lines = demo_lines\<rparr>" and replies = demo_answers and search = found
        and texts = demo_texts and q = "str_of ''a''" and initial_prompt = summarise
        and refine_prompt = revise_with and w = start]
    by blast
qed

end
